theory Spec2Isabelle
  imports Complex_Main "HOL-Library.Multiset" "HOL-Library.AList"
begin

section \<open>The reminder app of \<open>streamlit_app.py\<close>\<close>

text \<open>
  The program is one Streamlit script. Each run of the script reads the widgets, possibly
  handles one user interaction (form submit, checkbox, button) and renders the reminders.
  The model below follows the script top to bottom.

  Conventions of the embedding:
  \<^item> a \<open>datetime\<close> is a point on the naive local time line, counted in microseconds
    (Python's resolution), and a \<open>timedelta\<close> is a number of microseconds; both are
    unbounded \<open>int\<close>s (Python's \<open>OverflowError\<close> beyond year 9999 is not modelled);
  \<^item> \<open>datetime.now()\<close> is an input of the model: every call of the source has its
    own reading;
  \<^item> \<open>timedelta.total_seconds()\<close> is a float in Python; it is modelled by the exact
    rational it stands for, and \<open>divmod\<close> on floats by floor division on rationals;
  \<^item> a reminder in memory is a dict with the six keys the script gives it: a record;
    the four status strings are the constructors of \<open>status\<close>;
  \<^item> the list \<open>st.session_state.reminders\<close> holds the reminder objects; the sorted
    display lists hold references to the same objects, so they are lists of positions
    in the collection, and an assignment through a reference updates the collection;
  \<^item> \<open>datetime.isoformat\<close>, \<open>datetime.fromisoformat\<close> (standard library) are
    parameters of the functions that call them; \<open>uuid.uuid4()\<close> is an input.
\<close>

subsection \<open>Time arithmetic\<close>

type_synonym timestamp = int
type_synonym timedelta = int

definition total_seconds :: "timedelta \<Rightarrow> rat" where
  "total_seconds delta = of_int delta / 1000000"

text \<open>Python's \<open>divmod(x, y)\<close> on floats, for positive \<open>y\<close>.\<close>

definition divmod :: "rat \<Rightarrow> rat \<Rightarrow> rat \<times> rat" where
  "divmod x y = (of_int \<lfloor>x / y\<rfloor>, x - of_int \<lfloor>x / y\<rfloor> * y)"

text \<open>\<open>int(x)\<close> truncates towards zero.\<close>

definition py_int :: "rat \<Rightarrow> int" where
  "py_int x = (if 0 \<le> x then \<lfloor>x\<rfloor> else \<lceil>x\<rceil>)"

fun str_nat :: "nat \<Rightarrow> string" where
  "str_nat n = (if n < 10 then [''0123456789'' ! n]
                else str_nat (n div 10) @ [''0123456789'' ! (n mod 10)])"

declare str_nat.simps [simp del]

text \<open>The decimal text an f-string gives an \<open>int\<close>.\<close>

definition str_int :: "int \<Rightarrow> string" where
  "str_int i = (if i < 0 then CHR ''-'' # str_nat (nat (- i)) else str_nat (nat i))"

text \<open>\<open>sep.join(parts)\<close>\<close>

fun join :: "string \<Rightarrow> string list \<Rightarrow> string" where
  "join sep [] = []"
| "join sep [p] = p"
| "join sep (p # q # ps) = p @ sep @ join sep (q # ps)"

definition format_timedelta_dhms :: "timedelta \<Rightarrow> string" where
  "format_timedelta_dhms delta =
     (let seconds = total_seconds delta in
      if seconds \<le> 0 then
        (let abs_seconds = \<bar>seconds\<bar>;
             (days, rem1) = divmod abs_seconds 86400;
             (hours, rem2) = divmod rem1 3600;
             (minutes, secs) = divmod rem2 60;
             parts0 = [];
             parts1 = (if days > 0 then parts0 @ [str_int (py_int days) @ ''d''] else parts0);
             parts2 = (if hours > 0 then parts1 @ [str_int (py_int hours) @ ''h''] else parts1);
             parts3 = (if minutes > 0 then parts2 @ [str_int (py_int minutes) @ ''m'']
                       else parts2);
             parts = (if secs > 0 \<or> parts3 = [] then parts3 @ [str_int (py_int secs) @ ''s'']
                      else parts3)
         in if abs_seconds > 0
            then ''Overdue by '' @ (if parts \<noteq> [] then join '' '' parts else ''0s'') @ ''!''
            else ''Due NOW!'')
      else
        (let (days, rem1) = divmod seconds 86400;
             (hours, rem2) = divmod rem1 3600;
             (minutes, secs) = divmod rem2 60;
             parts0 = [];
             parts1 = (if days > 0 then parts0 @ [str_int (py_int days) @ ''d''] else parts0);
             parts2 = (if hours > 0 then parts1 @ [str_int (py_int hours) @ ''h''] else parts1);
             parts3 = (if minutes > 0 then parts2 @ [str_int (py_int minutes) @ ''m'']
                       else parts2);
             parts = (if parts3 = [] \<or> (days = 0 \<and> hours = 0 \<and> minutes = 0)
                      then parts3 @ [str_int (py_int secs) @ ''s''] else parts3)
         in join '' '' parts))"

subsection \<open>Reminders and the state of the app\<close>

datatype status = Pending | Due | Dismissed | Completed

record reminder =
  id_r :: string
  task :: string
  due_time :: timestamp
  created_at :: timestamp
  status :: status
  completed_at :: "timestamp option"

text \<open>
  The values a reminder dict holds on the way to and from the JSON file, and the dict
  itself, with its keys in insertion order.
\<close>

datatype pyval = PNone | PStr string | PDatetime timestamp

type_synonym dict = "(string \<times> pyval) list"

text \<open>\<open>d.get(k)\<close>: \<open>None\<close> for a missing key.\<close>

definition get :: "dict \<Rightarrow> string \<Rightarrow> pyval" where
  "get d k = (case map_of d k of None \<Rightarrow> PNone | Some v \<Rightarrow> v)"

text \<open>\<open>d[k] = v\<close>: in place for a key the dict has, at the end for a new one.\<close>

definition setitem :: "dict \<Rightarrow> string \<Rightarrow> pyval \<Rightarrow> dict" where
  "setitem d k v = AList.update k v d"

definition status_str :: "status \<Rightarrow> string" where
  "status_str s = (case s of Pending \<Rightarrow> ''pending'' | Due \<Rightarrow> ''due''
                    | Dismissed \<Rightarrow> ''dismissed'' | Completed \<Rightarrow> ''completed'')"

text \<open>The dict of a reminder, with the keys in the order line 121 to 128 writes them.\<close>

definition to_dict :: "reminder \<Rightarrow> dict" where
  "to_dict r =
     [(''id'', PStr (id_r r)),
      (''task'', PStr (task r)),
      (''due_time'', PDatetime (due_time r)),
      (''created_at'', PDatetime (created_at r)),
      (''status'', PStr (status_str (status r))),
      (''completed_at'', (case completed_at r of None \<Rightarrow> PNone | Some t \<Rightarrow> PDatetime t))]"

text \<open>
  The file \<open>reminders_data.json\<close>: absent; bytes that are no UTF-8 text; a file that
  cannot be opened or whose text is no JSON (a truncated write leaves such a file); or the
  JSON array of the dicts last written. \<open>json.dump\<close> followed by \<open>json.load\<close> gives
  back strings and \<open>None\<close> as they were; a \<open>datetime\<close> is not JSON serialisable. A
  file of another JSON shape is outside the model.
\<close>

datatype file_content = NoFile | NotUtf8 | Garbage | JsonFile "dict list"

text \<open>
  The exceptions the script does not catch: \<open>json.dump\<close> raises \<open>TypeError\<close> on a
  value that is not JSON serialisable, \<open>fromisoformat\<close> raises \<open>ValueError\<close> on a
  string that is no ISO date, and reading a file that is no UTF-8 text raises
  \<open>UnicodeDecodeError\<close>.
\<close>

datatype py_error = ValueError | TypeError | UnicodeDecodeError

text \<open>
  What the next attempt to write the file meets: success, an \<open>IOError\<close> on opening (the
  file stays as it was) or an \<open>IOError\<close> while writing (the file is left truncated). The
  string is the text of the exception.
\<close>

datatype io_result = WriteOk | OpenFails string | WriteFails string

record app_state =
  reminders :: "reminder list"
  reminders_file :: file_content
  errors :: "string list"
  disk :: "io_result list"

subsection \<open>Saving and loading\<close>

text \<open>The body of the loop of \<open>save_reminders_to_file\<close> (lines 66 to 70).\<close>

definition serialize :: "(timestamp \<Rightarrow> string) \<Rightarrow> dict \<Rightarrow> dict" where
  "serialize isoformat r =
     (let sr = r;
          sr = setitem sr ''due_time''
                 (case get sr ''due_time'' of PDatetime t \<Rightarrow> PStr (isoformat t) | v \<Rightarrow> v);
          sr = setitem sr ''created_at''
                 (case get sr ''created_at'' of PDatetime t \<Rightarrow> PStr (isoformat t) | v \<Rightarrow> v)
      in case get sr ''completed_at'' of
           PDatetime t \<Rightarrow> setitem sr ''completed_at'' (PStr (isoformat t))
         | _ \<Rightarrow> sr)"

definition json_serializable :: "dict \<Rightarrow> bool" where
  "json_serializable d = list_all (\<lambda>(k, v). case v of PDatetime t \<Rightarrow> False | _ \<Rightarrow> True) d"

text \<open>
  \<open>json.dump\<close> on a disk that takes the write: the file holds the array when every
  value is serialisable; otherwise the encoder raises \<open>TypeError\<close> after \<open>open\<close> has
  emptied the file and part of the text is written.
\<close>

definition json_dump :: "dict list \<Rightarrow> app_state \<Rightarrow> app_state \<times> py_error option" where
  "json_dump ds st =
     (if list_all json_serializable ds then (st\<lparr>reminders_file := JsonFile ds\<rparr>, None)
      else (st\<lparr>reminders_file := Garbage\<rparr>, Some TypeError))"

text \<open>
  The \<open>try\<close> block of \<open>save_reminders_to_file\<close>: the state it leaves and the exception
  that escapes it, if any. The head of \<open>disk\<close> says how the write goes (an empty
  \<open>disk\<close>: the disk takes it). Only \<open>IOError\<close> is caught.
\<close>

definition write_file :: "dict list \<Rightarrow> app_state \<Rightarrow> app_state \<times> py_error option" where
  "write_file ds st =
     (case disk st of
        [] \<Rightarrow> json_dump ds st
      | WriteOk # rest \<Rightarrow> json_dump ds (st\<lparr>disk := rest\<rparr>)
      | OpenFails e # rest \<Rightarrow>
          (st\<lparr>errors := errors st @ [''Error saving reminders: '' @ e], disk := rest\<rparr>, None)
      | WriteFails e # rest \<Rightarrow>
          (st\<lparr>reminders_file := Garbage,
              errors := errors st @ [''Error saving reminders: '' @ e], disk := rest\<rparr>, None))"

definition save_reminders_to_file ::
  "(timestamp \<Rightarrow> string) \<Rightarrow> dict list \<Rightarrow> app_state \<Rightarrow> app_state \<times> py_error option" where
  "save_reminders_to_file isoformat reminders_list st =
     write_file (map (serialize isoformat) reminders_list) st"

text \<open>
  In \<open>load_reminders_from_file\<close>, \<open>None\<close> of the parameter \<open>fromisoformat\<close> is its
  \<open>ValueError\<close>.
\<close>

text \<open>The body of the loop of \<open>load_reminders_from_file\<close> (lines 89 to 93).\<close>

definition deserialize :: "(string \<Rightarrow> timestamp option) \<Rightarrow> dict \<Rightarrow> py_error + dict" where
  "deserialize fromisoformat r =
     (let lr = r in
      case (case get r ''due_time'' of
              PStr s \<Rightarrow> (case fromisoformat s of None \<Rightarrow> Inl ValueError
                          | Some t \<Rightarrow> Inr (PDatetime t))
            | v \<Rightarrow> Inr v) of
        Inl e \<Rightarrow> Inl e
      | Inr due \<Rightarrow>
         (let lr = setitem lr ''due_time'' due in
          case (case get r ''created_at'' of
                  PStr s \<Rightarrow> (case fromisoformat s of None \<Rightarrow> Inl ValueError
                              | Some t \<Rightarrow> Inr (PDatetime t))
                | v \<Rightarrow> Inr v) of
            Inl e \<Rightarrow> Inl e
          | Inr created \<Rightarrow>
             (let lr = setitem lr ''created_at'' created in
              case get r ''completed_at'' of
                PStr s \<Rightarrow>
                  (if s \<noteq> [] then
                     (case fromisoformat s of None \<Rightarrow> Inl ValueError
                      | Some t \<Rightarrow> Inr (setitem lr ''completed_at'' (PDatetime t)))
                   else Inr lr)
              | _ \<Rightarrow> Inr lr)))"

fun deserialize_all ::
  "(string \<Rightarrow> timestamp option) \<Rightarrow> dict list \<Rightarrow> py_error + dict list" where
  "deserialize_all fromisoformat [] = Inr []"
| "deserialize_all fromisoformat (r # rs) =
     (case deserialize fromisoformat r of
        Inl e \<Rightarrow> Inl e
      | Inr lr \<Rightarrow> (case deserialize_all fromisoformat rs of
                    Inl e \<Rightarrow> Inl e
                  | Inr lrs \<Rightarrow> Inr (lr # lrs)))"

text \<open>
  \<open>load_reminders_from_file\<close>: the result (or the exception that escapes) and the
  messages \<open>st.error\<close> shows. The string is the text of the caught exception
  (\<open>IOError\<close> or \<open>JSONDecodeError\<close>); \<open>UnicodeDecodeError\<close> is neither.
\<close>

definition load_reminders_from_file ::
  "(string \<Rightarrow> timestamp option) \<Rightarrow> string \<Rightarrow> file_content \<Rightarrow> (py_error + dict list) \<times> string list"
  where
  "load_reminders_from_file fromisoformat e f =
     (case f of
        NoFile \<Rightarrow> (Inr [], [])
      | NotUtf8 \<Rightarrow> (Inl UnicodeDecodeError, [])
      | Garbage \<Rightarrow>
          (Inr [], [''Error loading reminders: '' @ e @ ''. Starting with an empty list.''])
      | JsonFile loaded_reminders \<Rightarrow> (deserialize_all fromisoformat loaded_reminders, []))"

subsection \<open>The handlers of the script\<close>

text \<open>
  \<open>save_reminders_to_file(st.session_state.reminders)\<close>: the state the call leaves
  and the exception that escapes it, if any. An exception that escapes ends the run.
\<close>

definition save_state :: "(timestamp \<Rightarrow> string) \<Rightarrow> app_state \<Rightarrow> app_state" where
  "save_state isoformat st =
     fst (save_reminders_to_file isoformat (map to_dict (reminders st)) st)"

definition save_raises :: "(timestamp \<Rightarrow> string) \<Rightarrow> app_state \<Rightarrow> py_error option" where
  "save_raises isoformat st =
     snd (save_reminders_to_file isoformat (map to_dict (reminders st)) st)"

text \<open>
  \<open>calculate_due_time\<close>, with the reading of the clock at line 18 as \<open>now\<close>.
  \<open>timedelta(seconds=value)\<close> and its siblings are exact in microseconds.
\<close>

definition calculate_due_time ::
  "timestamp \<Rightarrow> int \<Rightarrow> string \<Rightarrow> app_state \<Rightarrow> timestamp \<times> app_state" where
  "calculate_due_time now v unit st =
     (if unit = ''seconds'' then (now + v * 1000000, st)
      else if unit = ''minutes'' then (now + v * 60000000, st)
      else if unit = ''hours'' then (now + v * 3600000000, st)
      else if unit = ''days'' then (now + v * 86400000000, st)
      else (now, st\<lparr>errors := errors st @ [''Unknown time unit: '' @ unit]\<rparr>))"

text \<open>
  The body of \<open>if submitted and task_description\<close> (lines 120 to 130): \<open>now1\<close> is the
  clock read inside \<open>calculate_due_time\<close>, \<open>now2\<close> the clock read at line 125,
  \<open>uuid\<close> the text of \<open>uuid.uuid4()\<close>.
\<close>

definition add_reminder ::
  "(timestamp \<Rightarrow> string) \<Rightarrow> string \<Rightarrow> timestamp \<Rightarrow> timestamp \<Rightarrow> string \<Rightarrow> int \<Rightarrow> string
     \<Rightarrow> app_state \<Rightarrow> app_state" where
  "add_reminder isoformat uuid now1 now2 task_description time_value time_unit st =
     (let (due, st1) = calculate_due_time now1 time_value time_unit st;
          new_reminder = \<lparr>id_r = uuid, task = task_description, due_time = due,
                           created_at = now2, status = Pending, completed_at = None\<rparr>;
          st2 = st1\<lparr>reminders := reminders st1 @ [new_reminder]\<rparr>
      in save_state isoformat st2)"

text \<open>The exception that escapes the save of line 130, if any.\<close>

definition add_reminder_raises ::
  "(timestamp \<Rightarrow> string) \<Rightarrow> string \<Rightarrow> timestamp \<Rightarrow> timestamp \<Rightarrow> string \<Rightarrow> int \<Rightarrow> string
     \<Rightarrow> app_state \<Rightarrow> py_error option" where
  "add_reminder_raises isoformat uuid now1 now2 task_description time_value time_unit st =
     (let (due, st1) = calculate_due_time now1 time_value time_unit st;
          new_reminder = \<lparr>id_r = uuid, task = task_description, due_time = due,
                           created_at = now2, status = Pending, completed_at = None\<rparr>;
          st2 = st1\<lparr>reminders := reminders st1 @ [new_reminder]\<rparr>
      in save_raises isoformat st2)"

text \<open>
  An assignment to one key of the reminder object at position \<open>i\<close> of the collection.
\<close>

definition set_status :: "nat \<Rightarrow> status \<Rightarrow> app_state \<Rightarrow> app_state" where
  "set_status i s st = st\<lparr>reminders := (reminders st)[i := (reminders st ! i)\<lparr>status := s\<rparr>]\<rparr>"

definition set_completed_at :: "nat \<Rightarrow> timestamp option \<Rightarrow> app_state \<Rightarrow> app_state" where
  "set_completed_at i c st =
     st\<lparr>reminders := (reminders st)[i := (reminders st ! i)\<lparr>completed_at := c\<rparr>]\<rparr>"

text \<open>Lines 167 to 171: the pending reminder whose time has come becomes due.\<close>

definition mark_due ::
  "(timestamp \<Rightarrow> string) \<Rightarrow> timestamp \<Rightarrow> nat \<Rightarrow> app_state \<times> string list
     \<Rightarrow> app_state \<times> string list" where
  "mark_due isoformat current_time i acc =
     (let st = fst acc; due_notifications_this_cycle = snd acc;
          reminder = reminders st ! i;
          time_left = due_time reminder - current_time
      in if total_seconds time_left \<le> 0 \<and> status reminder = Pending
         then (save_state isoformat (set_status i Due st),
               due_notifications_this_cycle @ [task reminder])
         else (st, due_notifications_this_cycle))"

text \<open>The exception that escapes the save of line 171, if any.\<close>

definition mark_due_raises ::
  "(timestamp \<Rightarrow> string) \<Rightarrow> timestamp \<Rightarrow> nat \<Rightarrow> app_state \<times> string list
     \<Rightarrow> py_error option" where
  "mark_due_raises isoformat current_time i acc =
     (let st = fst acc;
          reminder = reminders st ! i;
          time_left = due_time reminder - current_time
      in if total_seconds time_left \<le> 0 \<and> status reminder = Pending
         then save_raises isoformat (set_status i Due st)
         else None)"

text \<open>Lines 197 to 199, with the clock read at line 198 as \<open>now\<close>.\<close>

definition complete_reminder ::
  "(timestamp \<Rightarrow> string) \<Rightarrow> timestamp \<Rightarrow> nat \<Rightarrow> app_state \<Rightarrow> app_state" where
  "complete_reminder isoformat now i st =
     save_state isoformat (set_completed_at i (Some now) (set_status i Completed st))"

definition complete_reminder_raises ::
  "(timestamp \<Rightarrow> string) \<Rightarrow> timestamp \<Rightarrow> nat \<Rightarrow> app_state \<Rightarrow> py_error option" where
  "complete_reminder_raises isoformat now i st =
     save_raises isoformat (set_completed_at i (Some now) (set_status i Completed st))"

text \<open>Lines 239 to 241.\<close>

definition uncomplete_reminder :: "(timestamp \<Rightarrow> string) \<Rightarrow> nat \<Rightarrow> app_state \<Rightarrow> app_state" where
  "uncomplete_reminder isoformat i st =
     save_state isoformat (set_completed_at i None (set_status i Pending st))"

definition uncomplete_reminder_raises ::
  "(timestamp \<Rightarrow> string) \<Rightarrow> nat \<Rightarrow> app_state \<Rightarrow> py_error option" where
  "uncomplete_reminder_raises isoformat i st =
     save_raises isoformat (set_completed_at i None (set_status i Pending st))"

text \<open>Lines 211 to 212 and, the same statements, lines 253 to 254.\<close>

definition dismiss_reminder :: "(timestamp \<Rightarrow> string) \<Rightarrow> nat \<Rightarrow> app_state \<Rightarrow> app_state" where
  "dismiss_reminder isoformat i st = save_state isoformat (set_status i Dismissed st)"

definition dismiss_reminder_raises ::
  "(timestamp \<Rightarrow> string) \<Rightarrow> nat \<Rightarrow> app_state \<Rightarrow> py_error option" where
  "dismiss_reminder_raises isoformat i st = save_raises isoformat (set_status i Dismissed st)"

subsection \<open>One run of the script\<close>

text \<open>
  What the user did to start the run: nothing (the timed refresh), the form, or one
  widget of one reminder. A widget is known by its key, which ends in the reminder's id.
\<close>

datatype event =
    NoEvent
  | FormSubmitted string int string
  | CompleteChecked string
  | DismissClicked string
  | UncompleteUnchecked string
  | DismissCompletedClicked string

text \<open>
  How the run ends: \<open>st.rerun()\<close> stops it at once, and the toasts of line 261 are not
  shown; so does an exception nothing catches; otherwise it reaches the end and shows
  \<open>due_notifications_this_cycle\<close>.
\<close>

datatype outcome = Rerun | Finished "string list" | Raised py_error

text \<open>
  A handler saves and then calls \<open>st.rerun()\<close>: the run ends there, in the exception
  if the save raised one.
\<close>

definition save_then_rerun :: "py_error option \<Rightarrow> outcome" where
  "save_then_rerun raised = (case raised of None \<Rightarrow> Rerun | Some e \<Rightarrow> Raised e)"

text \<open>
  The loop of lines 146 to 152 over the collection, \<open>i\<close> being the position of the
  head of the list.
\<close>

fun partition_reminders ::
  "reminder list \<Rightarrow> nat \<Rightarrow> nat list \<Rightarrow> nat list \<Rightarrow> nat list \<times> nat list" where
  "partition_reminders [] i pending_due_reminders completed_reminders_list =
     (pending_due_reminders, completed_reminders_list)"
| "partition_reminders (r # rs) i pending_due_reminders completed_reminders_list =
     (if status r = Dismissed
      then partition_reminders rs (Suc i) pending_due_reminders completed_reminders_list
      else if status r = Completed
      then partition_reminders rs (Suc i) pending_due_reminders
             (completed_reminders_list @ [i])
      else partition_reminders rs (Suc i) (pending_due_reminders @ [i])
             completed_reminders_list)"

text \<open>\<open>r.get('completed_at') or r['created_at']\<close>: a \<open>datetime\<close> is never falsy.\<close>

definition completed_key :: "reminder \<Rightarrow> timestamp" where
  "completed_key r = (case completed_at r of None \<Rightarrow> created_at r | Some t \<Rightarrow> t)"

text \<open>
  Lines 155 and 156. \<open>sorted\<close> is stable, and with \<open>reverse=True\<close> it still keeps
  equal keys in their first order: it is the reverse of the stable sort of the reverse.
\<close>

definition sorted_active_reminders :: "reminder list \<Rightarrow> nat list" where
  "sorted_active_reminders rs =
     sort_key (\<lambda>i. due_time (rs ! i)) (fst (partition_reminders rs 0 [] []))"

definition sorted_completed_reminders :: "reminder list \<Rightarrow> nat list" where
  "sorted_completed_reminders rs =
     rev (sort_key (\<lambda>i. completed_key (rs ! i)) (rev (snd (partition_reminders rs 0 [] []))))"

text \<open>
  The loop of lines 161 to 215 over the active reminders. The result says how the run
  was stopped inside the loop, if it was. \<open>now2\<close> is the clock read at line 198.
\<close>

fun active_loop ::
  "(timestamp \<Rightarrow> string) \<Rightarrow> event \<Rightarrow> timestamp \<Rightarrow> timestamp \<Rightarrow> nat list
     \<Rightarrow> app_state \<times> string list \<Rightarrow> (app_state \<times> string list) \<times> outcome option" where
  "active_loop isoformat ev current_time now2 [] acc = (acc, None)"
| "active_loop isoformat ev current_time now2 (i # rest) acc =
     (let acc1 = mark_due isoformat current_time i acc;
          st1 = fst acc1;
          task_id = id_r (reminders st1 ! i);
          is_completed_by_user = (ev = CompleteChecked task_id)
      in case mark_due_raises isoformat current_time i acc of
           Some e \<Rightarrow> (acc1, Some (Raised e))
         | None \<Rightarrow>
             if is_completed_by_user \<and> status (reminders st1 ! i) \<noteq> Completed
             then ((complete_reminder isoformat now2 i st1, snd acc1),
                   Some (save_then_rerun (complete_reminder_raises isoformat now2 i st1)))
             else if ev = DismissClicked task_id
             then ((dismiss_reminder isoformat i st1, snd acc1),
                   Some (save_then_rerun (dismiss_reminder_raises isoformat i st1)))
             else active_loop isoformat ev current_time now2 rest acc1)"

text \<open>The loop of lines 223 to 257 over the completed reminders.\<close>

fun completed_loop ::
  "(timestamp \<Rightarrow> string) \<Rightarrow> event \<Rightarrow> nat list \<Rightarrow> app_state
     \<Rightarrow> app_state \<times> outcome option" where
  "completed_loop isoformat ev [] st = (st, None)"
| "completed_loop isoformat ev (i # rest) st =
     (let task_id = id_r (reminders st ! i);
          is_still_completed = (ev \<noteq> UncompleteUnchecked task_id)
      in if \<not> is_still_completed
         then (uncomplete_reminder isoformat i st,
               Some (save_then_rerun (uncomplete_reminder_raises isoformat i st)))
         else if ev = DismissCompletedClicked task_id
         then (dismiss_reminder isoformat i st,
               Some (save_then_rerun (dismiss_reminder_raises isoformat i st)))
         else completed_loop isoformat ev rest st)"

text \<open>Lines 136 to 262, with the clock read at line 139 as \<open>current_time\<close>.\<close>

definition render ::
  "(timestamp \<Rightarrow> string) \<Rightarrow> event \<Rightarrow> timestamp \<Rightarrow> timestamp \<Rightarrow> app_state
     \<Rightarrow> app_state \<times> outcome" where
  "render isoformat ev current_time now2 st =
     (if reminders st = [] then (st, Finished [])
      else
        (let active = sorted_active_reminders (reminders st);
             completed = sorted_completed_reminders (reminders st);
             res = active_loop isoformat ev current_time now2 active (st, [])
         in case snd res of
              Some stopped \<Rightarrow> (fst (fst res), stopped)
            | None \<Rightarrow>
               (let res2 = completed_loop isoformat ev completed (fst (fst res))
                in case snd res2 of
                     Some stopped \<Rightarrow> (fst res2, stopped)
                   | None \<Rightarrow> (fst res2, Finished (snd (fst res))))))"

text \<open>
  One run of the script from line 119 on. The form handler ends in \<open>st.rerun()\<close>; a
  form submitted with an empty task falls through to the rendering.
\<close>

definition script_run ::
  "(timestamp \<Rightarrow> string) \<Rightarrow> event \<Rightarrow> string \<Rightarrow> timestamp \<Rightarrow> timestamp \<Rightarrow> app_state
     \<Rightarrow> app_state \<times> outcome" where
  "script_run isoformat ev uuid now1 now2 st =
     (case ev of
        FormSubmitted task_description time_value time_unit \<Rightarrow>
          (if task_description \<noteq> []
           then (add_reminder isoformat uuid now1 now2 task_description time_value time_unit st,
                 save_then_rerun
                   (add_reminder_raises isoformat uuid now1 now2 task_description time_value
                      time_unit st))
           else render isoformat ev now1 now2 st)
      | _ \<Rightarrow> render isoformat ev now1 now2 st)"

text \<open>
  A run is started with an event and the values the environment gives it; a session
  is a sequence of runs.
\<close>

record run_input =
  ev_of :: event
  uuid_of :: string
  now1_of :: timestamp
  now2_of :: timestamp

fun session :: "(timestamp \<Rightarrow> string) \<Rightarrow> run_input list \<Rightarrow> app_state \<Rightarrow> app_state" where
  "session isoformat [] st = st"
| "session isoformat (x # xs) st =
     session isoformat xs
       (fst (script_run isoformat (ev_of x) (uuid_of x) (now1_of x) (now2_of x) st))"

subsection \<open>The time-driven pass\<close>

text \<open>
  \<open>evaluate(now)\<close> of the specification is the run no interaction started: its state,
  the two display lists as rendered, and the notifications of the cycle.
\<close>

definition evaluate ::
  "(timestamp \<Rightarrow> string) \<Rightarrow> timestamp \<Rightarrow> app_state
     \<Rightarrow> app_state \<times> reminder list \<times> reminder list \<times> string list" where
  "evaluate isoformat now st =
     (let res = render isoformat NoEvent now now st;
          st' = fst res
      in (st',
          map (\<lambda>i. reminders st' ! i) (sorted_active_reminders (reminders st)),
          map (\<lambda>i. reminders st' ! i) (sorted_completed_reminders (reminders st)),
          (case snd res of Finished due \<Rightarrow> due | _ \<Rightarrow> [])))"

subsection \<open>Notions the properties are stated with\<close>

text \<open>A pending reminder whose time has come at \<open>now\<close> (the test of line 167).\<close>

definition due_now :: "timestamp \<Rightarrow> reminder \<Rightarrow> bool" where
  "due_now now r = (status r = Pending \<and> due_time r \<le> now)"

definition flip_due :: "timestamp \<Rightarrow> reminder \<Rightarrow> reminder" where
  "flip_due now r = (if due_now now r then r\<lparr>status := Due\<rparr> else r)"

text \<open>
  The positions, in display order, of the reminders a run at \<open>now\<close> finds pending and
  due: each of them adds its task to \<open>due_notifications_this_cycle\<close>.
\<close>

definition became_due_positions :: "timestamp \<Rightarrow> reminder list \<Rightarrow> nat list" where
  "became_due_positions now rs =
     filter (\<lambda>i. due_now now (rs ! i)) (sorted_active_reminders rs)"

text \<open>The loop over the active reminders when no widget was touched.\<close>

definition timed_pass ::
  "(timestamp \<Rightarrow> string) \<Rightarrow> timestamp \<Rightarrow> app_state \<Rightarrow> app_state \<times> string list" where
  "timed_pass isoformat now st =
     fold (mark_due isoformat now) (sorted_active_reminders (reminders st)) (st, [])"

text \<open>
  Evaluations one after the other, at the times of the list: for each one, the positions
  of the reminders it notifies.
\<close>

fun evaluations ::
  "(timestamp \<Rightarrow> string) \<Rightarrow> timestamp list \<Rightarrow> app_state \<Rightarrow> nat list list" where
  "evaluations isoformat [] st = []"
| "evaluations isoformat (now # nows) st =
     became_due_positions now (reminders st)
       # evaluations isoformat nows (fst (evaluate isoformat now st))"

text \<open>A small collection: a pending, a completed and a dismissed reminder.\<close>

definition example_state :: app_state where
  "example_state =
     \<lparr>reminders =
        [\<lparr>id_r = ''a'', task = ''Buy milk'', due_time = 10000000, created_at = 0,
          status = Pending, completed_at = None\<rparr>,
         \<lparr>id_r = ''b'', task = ''Call home'', due_time = 5000000, created_at = 1000000,
          status = Completed, completed_at = Some 7000000\<rparr>,
         \<lparr>id_r = ''c'', task = ''Water plants'', due_time = 3000000, created_at = 2000000,
          status = Dismissed, completed_at = None\<rparr>],
      reminders_file = NoFile, errors = [], disk = []\<rparr>"

text \<open>
  The invariant of the specification: \<open>completed_at\<close> is present exactly when the
  status is completed.
\<close>

definition completed_at_iff :: "reminder \<Rightarrow> bool" where
  "completed_at_iff r = ((completed_at r \<noteq> None) = (status r = Completed))"

text \<open>
  What the script keeps: a pending or due reminder has no \<open>completed_at\<close>, a completed
  one has it, and a dismissed one has what it had when it was dismissed.
\<close>

definition status_agrees :: "reminder \<Rightarrow> bool" where
  "status_agrees r =
     (case status r of
        Pending \<Rightarrow> completed_at r = None
      | Due \<Rightarrow> completed_at r = None
      | Completed \<Rightarrow> completed_at r \<noteq> None
      | Dismissed \<Rightarrow> True)"



text \<open>Two pending reminders, both due before the fifth second.\<close>

definition overdue_pair :: app_state where
  "overdue_pair =
     \<lparr>reminders =
        [\<lparr>id_r = ''x'', task = ''Take pills'', due_time = 1000000, created_at = 0,
          status = Pending, completed_at = None\<rparr>,
         \<lparr>id_r = ''y'', task = ''Feed cat'', due_time = 2000000, created_at = 0,
          status = Pending, completed_at = None\<rparr>],
      reminders_file = NoFile, errors = [], disk = []\<rparr>"

text \<open>The next write of the file succeeds.\<close>

definition write_succeeds :: "app_state \<Rightarrow> bool" where
  "write_succeeds st = (case disk st of [] \<Rightarrow> True | WriteOk # rest \<Rightarrow> True | _ \<Rightarrow> False)"

text \<open>The state of a first start: no reminder, no file.\<close>

definition empty_state :: app_state where
  "empty_state = \<lparr>reminders = [], reminders_file = NoFile, errors = [], disk = []\<rparr>"

text \<open>
  A textual form of a timestamp and its reader, to run the functions on: the decimal
  number of microseconds. The value of a digit is its place in the table \<open>str_nat\<close>
  draws from.
\<close>

definition digit_value :: "char \<Rightarrow> nat" where
  "digit_value c = length (takeWhile (\<lambda>d. d \<noteq> c) ''0123456789'')"

definition read_nat :: "string \<Rightarrow> nat" where
  "read_nat s = foldl (\<lambda>n c. n * 10 + digit_value c) 0 s"

definition read_int :: "string \<Rightarrow> int option" where
  "read_int s =
     (case s of
        [] \<Rightarrow> None
      | c # cs \<Rightarrow> if c = CHR ''-'' then Some (- int (read_nat cs)) else Some (int (read_nat s)))"

text \<open>A session of four runs: a refresh, a completion, a new reminder, a dismissal.\<close>

definition example_runs :: "run_input list" where
  "example_runs =
     [\<lparr>ev_of = NoEvent, uuid_of = ''u1'', now1_of = 11000000, now2_of = 11000000\<rparr>,
      \<lparr>ev_of = CompleteChecked ''a'', uuid_of = ''u2'', now1_of = 12000000, now2_of = 12000001\<rparr>,
      \<lparr>ev_of = FormSubmitted ''Pay rent'' 2 ''hours'', uuid_of = ''d'', now1_of = 13000000,
        now2_of = 13000002\<rparr>,
      \<lparr>ev_of = DismissCompletedClicked ''b'', uuid_of = ''u4'', now1_of = 14000000,
        now2_of = 14000000\<rparr>]"

section \<open>Properties\<close>

subsection \<open>Saving keeps the collection\<close>

lemma total_seconds_le_0 [simp]: "total_seconds d \<le> 0 \<longleftrightarrow> d \<le> 0"
  by (simp add: total_seconds_def divide_le_0_iff)

lemma json_ok: "json_serializable (serialize isoformat (to_dict r))"
  by (cases "completed_at r")
     (simp_all add: json_serializable_def serialize_def to_dict_def get_def setitem_def Let_def)

lemma serialized_collection:
  "list_all json_serializable (map (serialize isoformat \<circ> to_dict) rs)"
  by (simp add: list_all_iff json_ok)

lemma reminders_write_file [simp]: "reminders (fst (write_file ds st)) = reminders st"
  by (simp add: write_file_def json_dump_def split: list.split io_result.split)

lemma write_file_serializable:
  "list_all json_serializable ds \<Longrightarrow> snd (write_file ds st) = None"
  by (simp add: write_file_def json_dump_def split: list.split io_result.split)

lemma save_raises_None [simp]: "save_raises isoformat st = None"
  by (simp add: save_raises_def save_reminders_to_file_def write_file_serializable
        serialized_collection)

lemma handlers_raise_None [simp]:
  "mark_due_raises isoformat now i acc = None"
  "complete_reminder_raises isoformat now i st = None"
  "uncomplete_reminder_raises isoformat i st = None"
  "dismiss_reminder_raises isoformat i st = None"
  "add_reminder_raises isoformat uuid now1 now2 t v u st = None"
  by (simp_all add: mark_due_raises_def complete_reminder_raises_def
        uncomplete_reminder_raises_def dismiss_reminder_raises_def add_reminder_raises_def
        Let_def split: prod.split)

lemma save_then_rerun_None [simp]: "save_then_rerun None = Rerun"
  by (simp add: save_then_rerun_def)

lemma reminders_save_state [simp]: "reminders (save_state isoformat st) = reminders st"
  by (simp add: save_state_def save_reminders_to_file_def)

lemma partition_reminders_enumerate:
  "partition_reminders rs i p c =
     (p @ map fst (filter (\<lambda>x. status (snd x) \<noteq> Dismissed \<and> status (snd x) \<noteq> Completed) (enumerate i rs)),
      c @ map fst (filter (\<lambda>x. status (snd x) = Completed) (enumerate i rs)))"
  by (induction rs arbitrary: i p c) auto

lemma snd_filter_enumerate:
  "map snd (filter (\<lambda>x. P (snd x)) (enumerate 0 rs)) = filter P rs"
proof -
  have "filter P rs = filter P (map snd (enumerate 0 rs))" by simp
  also have "\<dots> = map snd (filter (P \<circ> snd) (enumerate 0 rs))" by (rule filter_map)
  finally show ?thesis by (simp add: comp_def)
qed

lemma nth_fst_enumerate:
  "map (\<lambda>j. rs ! j) (map fst (filter (\<lambda>x. P (snd x)) (enumerate 0 rs))) = filter P rs"
proof -
  have "map (\<lambda>j. rs ! j) (map fst (filter (\<lambda>x. P (snd x)) (enumerate 0 rs)))
        = map snd (filter (\<lambda>x. P (snd x)) (enumerate 0 rs))"
    by (auto simp: in_set_enumerate_eq)
  then show ?thesis by (simp only: snd_filter_enumerate)
qed

lemma map_insort_key: "map f (insort_key (\<lambda>x. k (f x)) a xs) = insort_key k (f a) (map f xs)"
  by (induction xs) auto

lemma map_sort_key: "map f (sort_key (\<lambda>x. k (f x)) xs) = sort_key k (map f xs)"
  by (induction xs) (auto simp: sort_key_simps map_insort_key)

lemma pending_positions:
  "fst (partition_reminders rs 0 [] []) =
     map fst (filter (\<lambda>x. status (snd x) \<noteq> Dismissed \<and> status (snd x) \<noteq> Completed) (enumerate 0 rs))"
  by (simp add: partition_reminders_enumerate)

lemma completed_positions:
  "snd (partition_reminders rs 0 [] []) =
     map fst (filter (\<lambda>x. status (snd x) = Completed) (enumerate 0 rs))"
  by (simp add: partition_reminders_enumerate)

lemma active_view:
  "map (\<lambda>i. rs ! i) (sorted_active_reminders rs)
     = sort_key due_time (filter (\<lambda>r. status r \<noteq> Dismissed \<and> status r \<noteq> Completed) rs)"
  using nth_fst_enumerate [of rs "\<lambda>r. status r \<noteq> Dismissed \<and> status r \<noteq> Completed"]
  by (simp add: sorted_active_reminders_def pending_positions map_sort_key)

lemma completed_view:
  "map (\<lambda>i. rs ! i) (sorted_completed_reminders rs)
     = rev (sort_key completed_key (rev (filter (\<lambda>r. status r = Completed) rs)))"
proof -
  let ?xs = "snd (partition_reminders rs 0 [] [])"
  have xs: "map (\<lambda>i. rs ! i) ?xs = filter (\<lambda>r. status r = Completed) rs"
    using nth_fst_enumerate [of rs "\<lambda>r. status r = Completed"]
    by (simp add: completed_positions)
  have "map (\<lambda>i. rs ! i) (sorted_completed_reminders rs)
        = rev (map (\<lambda>i. rs ! i) (sort_key (\<lambda>i. completed_key (rs ! i)) (rev ?xs)))"
    by (simp add: sorted_completed_reminders_def rev_map)
  also have "\<dots> = rev (sort_key completed_key (map (\<lambda>i. rs ! i) (rev ?xs)))"
    by (simp only: map_sort_key)
  also have "\<dots> = rev (sort_key completed_key (rev (map (\<lambda>i. rs ! i) ?xs)))"
    by (simp only: rev_map)
  finally show ?thesis by (simp only: xs)
qed

lemma not_dc: "(s \<noteq> Dismissed \<and> s \<noteq> Completed) = (s = Pending \<or> s = Due)"
  by (cases s) auto

subsection \<open>The run no widget started\<close>

lemma flip_due_idem [simp]: "flip_due now (flip_due now r) = flip_due now r"
  by (simp add: flip_due_def due_now_def)

lemma not_due_now_flip [simp]: "\<not> due_now now (flip_due now r)"
  by (simp add: flip_due_def due_now_def)

lemma mark_due_reminders:
  "reminders (fst (mark_due isoformat now i acc)) =
     (reminders (fst acc))[i := flip_due now (reminders (fst acc) ! i)]"
  by (simp add: mark_due_def Let_def flip_due_def due_now_def set_status_def)

lemma mark_due_notifications:
  "snd (mark_due isoformat now i acc) =
     snd acc @ (if due_now now (reminders (fst acc) ! i) then [task (reminders (fst acc) ! i)] else [])"
  by (simp add: mark_due_def Let_def due_now_def)

lemma mark_due_idle:
  "\<not> due_now now (reminders (fst acc) ! i) \<Longrightarrow> mark_due isoformat now i acc = acc"
  by (auto simp: mark_due_def Let_def due_now_def)

lemma active_loop_NoEvent:
  "active_loop isoformat NoEvent now n2 is acc = (fold (mark_due isoformat now) is acc, None)"
  by (induction "is" arbitrary: acc) (simp_all add: Let_def)

lemma completed_loop_NoEvent: "completed_loop isoformat NoEvent is st = (st, None)"
  by (induction "is") (simp_all add: Let_def)

lemma length_fold_mark_due [simp]:
  "length (reminders (fst (fold (mark_due isoformat now) is acc))) = length (reminders (fst acc))"
  by (induction "is" arbitrary: acc) (simp_all add: mark_due_reminders)

lemma nth_fold_mark_due:
  "j < length (reminders (fst acc)) \<Longrightarrow>
   reminders (fst (fold (mark_due isoformat now) is acc)) ! j =
     (if j \<in> set is then flip_due now (reminders (fst acc) ! j) else reminders (fst acc) ! j)"
proof (induction "is" arbitrary: acc)
  case Nil
  then show ?case by simp
next
  case (Cons i "is")
  let ?acc = "mark_due isoformat now i acc"
  have len: "j < length (reminders (fst ?acc))"
    using Cons.prems by (simp add: mark_due_reminders)
  show ?case
    using Cons.IH [OF len] Cons.prems
    by (cases "j = i") (simp_all add: mark_due_reminders)
qed

lemma fold_mark_due_idle:
  "\<forall>i \<in> set is. \<not> due_now now (reminders (fst acc) ! i) \<Longrightarrow>
   fold (mark_due isoformat now) is acc = acc"
  by (induction "is" arbitrary: acc) (simp_all add: mark_due_idle)

lemma notifications_fold_mark_due:
  "distinct is \<Longrightarrow>
   snd (fold (mark_due isoformat now) is acc) =
     snd acc @ map (\<lambda>i. task (reminders (fst acc) ! i))
                 (filter (\<lambda>i. due_now now (reminders (fst acc) ! i)) is)"
proof (induction "is" arbitrary: acc)
  case Nil
  then show ?case by simp
next
  case (Cons i "is")
  let ?acc = "mark_due isoformat now i acc"
  have same: "reminders (fst ?acc) ! j = reminders (fst acc) ! j" if "j \<in> set is" for j
  proof -
    from that Cons.prems have "i \<noteq> j" by auto
    then show ?thesis by (simp add: mark_due_reminders)
  qed
  have "snd (fold (mark_due isoformat now) is ?acc) =
     snd ?acc @ map (\<lambda>i. task (reminders (fst ?acc) ! i))
                 (filter (\<lambda>i. due_now now (reminders (fst ?acc) ! i)) is)"
    using Cons.IH Cons.prems by simp
  also have "filter (\<lambda>i. due_now now (reminders (fst ?acc) ! i)) is
           = filter (\<lambda>i. due_now now (reminders (fst acc) ! i)) is"
    by (rule filter_cong) (simp_all add: same)
  also have "map (\<lambda>i. task (reminders (fst ?acc) ! i)) (filter (\<lambda>i. due_now now (reminders (fst acc) ! i)) is)
           = map (\<lambda>i. task (reminders (fst acc) ! i)) (filter (\<lambda>i. due_now now (reminders (fst acc) ! i)) is)"
    by (rule map_cong) (simp_all add: same)
  finally show ?case
    by (simp add: mark_due_notifications)
qed

lemma fst_filter_enumerate:
  "map fst (filter (\<lambda>x. P (snd x)) (enumerate 0 rs)) = filter (\<lambda>j. P (rs ! j)) [0..<length rs]"
proof -
  have "filter (\<lambda>j. P (rs ! j)) [0..<length rs] = filter (\<lambda>j. P (rs ! j)) (map fst (enumerate 0 rs))"
    by simp
  also have "\<dots> = map fst (filter ((\<lambda>j. P (rs ! j)) \<circ> fst) (enumerate 0 rs))"
    by (rule filter_map)
  also have "filter ((\<lambda>j. P (rs ! j)) \<circ> fst) (enumerate 0 rs) = filter (\<lambda>x. P (snd x)) (enumerate 0 rs)"
    by (rule filter_cong) (auto simp: in_set_enumerate_eq)
  finally show ?thesis by simp
qed

lemma pending_positions_filter:
  "fst (partition_reminders rs 0 [] []) =
     filter (\<lambda>j. status (rs ! j) \<noteq> Dismissed \<and> status (rs ! j) \<noteq> Completed) [0..<length rs]"
  using fst_filter_enumerate [of "\<lambda>r. status r \<noteq> Dismissed \<and> status r \<noteq> Completed" rs]
  by (simp add: pending_positions)

lemma completed_positions_filter:
  "snd (partition_reminders rs 0 [] []) =
     filter (\<lambda>j. status (rs ! j) = Completed) [0..<length rs]"
  using fst_filter_enumerate [of "\<lambda>r. status r = Completed" rs]
  by (simp add: completed_positions)

lemma set_sorted_active:
  "set (sorted_active_reminders rs) =
     {j. j < length rs \<and> status (rs ! j) \<noteq> Dismissed \<and> status (rs ! j) \<noteq> Completed}"
  by (auto simp: sorted_active_reminders_def pending_positions_filter)

lemma set_sorted_completed:
  "set (sorted_completed_reminders rs) = {j. j < length rs \<and> status (rs ! j) = Completed}"
  by (auto simp: sorted_completed_reminders_def completed_positions_filter)

lemma distinct_sorted_active: "distinct (sorted_active_reminders rs)"
  by (simp add: sorted_active_reminders_def pending_positions_filter)

lemma insort_key_cong_set:
  "f a = g a \<Longrightarrow> (\<And>x. x \<in> set xs \<Longrightarrow> f x = g x) \<Longrightarrow> insort_key f a xs = insort_key g a xs"
  by (induction xs) auto

lemma sort_key_cong_set:
  "(\<And>x. x \<in> set xs \<Longrightarrow> f x = g x) \<Longrightarrow> sort_key f xs = sort_key g xs"
proof (induction xs)
  case Nil
  then show ?case by simp
next
  case (Cons a xs)
  have "sort_key f xs = sort_key g xs" using Cons by simp
  moreover have "insort_key f a (sort_key g xs) = insort_key g a (sort_key g xs)"
    by (rule insort_key_cong_set) (simp_all add: Cons.prems)
  ultimately show ?case by (simp add: sort_key_simps)
qed

lemma sorted_lists_cong:
  assumes len: "length rs' = length rs"
    and st: "\<And>j. j < length rs \<Longrightarrow>
               (status (rs' ! j) = Dismissed \<longleftrightarrow> status (rs ! j) = Dismissed) \<and>
               (status (rs' ! j) = Completed \<longleftrightarrow> status (rs ! j) = Completed) \<and>
               due_time (rs' ! j) = due_time (rs ! j) \<and>
               completed_key (rs' ! j) = completed_key (rs ! j)"
  shows "sorted_active_reminders rs' = sorted_active_reminders rs"
    and "sorted_completed_reminders rs' = sorted_completed_reminders rs"
proof -
  have p: "fst (partition_reminders rs' 0 [] []) = fst (partition_reminders rs 0 [] [])"
    unfolding pending_positions_filter len
    by (rule filter_cong) (simp_all add: st)
  have c: "snd (partition_reminders rs' 0 [] []) = snd (partition_reminders rs 0 [] [])"
    unfolding completed_positions_filter len
    by (rule filter_cong) (simp_all add: st)
  show "sorted_active_reminders rs' = sorted_active_reminders rs"
    unfolding sorted_active_reminders_def p
    by (rule sort_key_cong_set) (simp add: pending_positions_filter st)
  show "sorted_completed_reminders rs' = sorted_completed_reminders rs"
    unfolding sorted_completed_reminders_def c
    by (rule arg_cong [where f = rev], rule sort_key_cong_set)
       (simp add: completed_positions_filter st)
qed

lemma flip_due_class:
  "(status (flip_due now r) = Dismissed \<longleftrightarrow> status r = Dismissed) \<and>
   (status (flip_due now r) = Completed \<longleftrightarrow> status r = Completed) \<and>
   due_time (flip_due now r) = due_time r \<and>
   completed_key (flip_due now r) = completed_key r"
  by (auto simp: flip_due_def due_now_def completed_key_def split: option.split)

lemma render_NoEvent:
  "render isoformat NoEvent now n2 st =
     (fst (timed_pass isoformat now st), Finished (snd (timed_pass isoformat now st)))"
proof (cases "reminders st = []")
  case True
  then show ?thesis
    by (simp add: render_def timed_pass_def sorted_active_reminders_def)
next
  case False
  then show ?thesis
    by (simp add: render_def timed_pass_def Let_def active_loop_NoEvent completed_loop_NoEvent)
qed

lemma length_timed_pass [simp]: "length (reminders (fst (timed_pass isoformat now st))) = length (reminders st)"
  by (simp add: timed_pass_def)

lemma nth_timed_pass:
  "j < length (reminders st) \<Longrightarrow>
   reminders (fst (timed_pass isoformat now st)) ! j =
     (if status (reminders st ! j) = Pending then flip_due now (reminders st ! j)
      else reminders st ! j)"
  by (auto simp: timed_pass_def nth_fold_mark_due set_sorted_active flip_due_def due_now_def)

lemma sorted_lists_timed_pass:
  "sorted_active_reminders (reminders (fst (timed_pass isoformat now st))) = sorted_active_reminders (reminders st)"
  "sorted_completed_reminders (reminders (fst (timed_pass isoformat now st))) = sorted_completed_reminders (reminders st)"
  by (rule sorted_lists_cong; simp add: nth_timed_pass flip_due_class)+

lemma timed_pass_twice: "timed_pass isoformat now (fst (timed_pass isoformat now st)) = (fst (timed_pass isoformat now st), [])"
proof -
  let ?st1 = "fst (timed_pass isoformat now st)"
  have "\<forall>i \<in> set (sorted_active_reminders (reminders st)). \<not> due_now now (reminders ?st1 ! i)"
    using not_due_now_flip by (auto simp: set_sorted_active nth_timed_pass due_now_def)
  then show ?thesis
    using fold_mark_due_idle [of "sorted_active_reminders (reminders st)" now "(?st1, [])" isoformat]
    by (simp add: timed_pass_def [of isoformat now ?st1] sorted_lists_timed_pass)
qed

lemma count_list_distinct: "distinct xs \<Longrightarrow> x \<in> set xs \<Longrightarrow> count_list xs x = 1"
  by (induction xs) auto

lemma fst_evaluate: "fst (evaluate isoformat now st) = fst (timed_pass isoformat now st)"
  by (simp add: evaluate_def Let_def render_NoEvent)

lemma became_due_evaluate:
  "snd (snd (snd (evaluate isoformat now st))) =
     map (\<lambda>j. task (reminders st ! j)) (became_due_positions now (reminders st))"
  using notifications_fold_mark_due [OF distinct_sorted_active, of isoformat now "reminders st" "(st, [])"]
  by (simp add: evaluate_def Let_def render_NoEvent timed_pass_def became_due_positions_def)

lemma due_stays:
  "i < length (reminders st) \<Longrightarrow> status (reminders st ! i) = Due \<Longrightarrow>
   count_list (concat (evaluations isoformat nows st)) i = 0"
proof (induction nows arbitrary: st)
  case Nil
  then show ?case by simp
next
  case (Cons now nows)
  let ?st1 = "fst (evaluate isoformat now st)"
  have "i < length (reminders ?st1)" "status (reminders ?st1 ! i) = Due"
    using Cons.prems by (simp_all add: fst_evaluate nth_timed_pass)
  then have "count_list (concat (evaluations isoformat nows ?st1)) i = 0"
    by (rule Cons.IH)
  moreover have "i \<notin> set (became_due_positions now (reminders st))"
    using Cons.prems by (simp add: became_due_positions_def due_now_def)
  ultimately show ?case by simp
qed

lemma refresh_notifies_once:
  assumes "i < length (reminders st)"
    and "status (reminders st ! i) = Pending"
    and "due_time (reminders st ! i) \<le> now"
  shows "status (reminders (fst (evaluate isoformat now st)) ! i) = Due
       \<and> snd (snd (snd (evaluate isoformat now st))) =
           map (\<lambda>j. task (reminders st ! j)) (became_due_positions now (reminders st))
       \<and> count_list (became_due_positions now (reminders st)) i = 1
       \<and> count_list (concat (evaluations isoformat (now # nows) st)) i = 1"
proof -
  let ?st1 = "fst (evaluate isoformat now st)"
  have due: "status (reminders ?st1 ! i) = Due"
    using assms by (simp add: fst_evaluate nth_timed_pass flip_due_def due_now_def)
  have "i \<in> set (became_due_positions now (reminders st))"
    using assms by (simp add: became_due_positions_def due_now_def set_sorted_active)
  moreover have "distinct (became_due_positions now (reminders st))"
    by (simp add: became_due_positions_def distinct_sorted_active)
  ultimately have once: "count_list (became_due_positions now (reminders st)) i = 1"
    by (simp add: count_list_distinct)
  have "i < length (reminders ?st1)"
    using assms by (simp add: fst_evaluate)
  then have "count_list (concat (evaluations isoformat nows ?st1)) i = 0"
    using due by (rule due_stays)
  with once due show ?thesis
    by (simp add: became_due_evaluate)
qed

subsection \<open>A textual form of timestamps that can be read back\<close>

lemma digit_value_nth: "d < 10 \<Longrightarrow> digit_value (''0123456789'' ! d) = d"
proof -
  have "\<forall>d \<in> set [0..<10]. digit_value (''0123456789'' ! d) = d" by code_simp
  moreover assume "d < 10"
  ultimately show ?thesis by simp
qed

lemma read_nat_snoc: "read_nat (s @ [c]) = read_nat s * 10 + digit_value c"
  by (simp add: read_nat_def)

lemma read_nat_str_nat: "read_nat (str_nat n) = n"
proof (induction n rule: str_nat.induct)
  case (1 n)
  show ?case
  proof (cases "n < 10")
    case True
    then show ?thesis
      using digit_value_nth [of n] by (simp add: str_nat.simps [of n] read_nat_def)
  next
    case False
    then show ?thesis
      using 1 digit_value_nth [of "n mod 10"]
      by (simp add: str_nat.simps [of n] read_nat_snoc)
  qed
qed

lemma nth_digit_not_minus: "d < 10 \<Longrightarrow> ''0123456789'' ! d \<noteq> CHR ''-''"
proof -
  have "\<forall>d \<in> set [0..<10]. ''0123456789'' ! d \<noteq> CHR ''-''" by code_simp
  moreover assume "d < 10"
  ultimately show ?thesis by simp
qed

lemma str_nat_head: "\<exists>c cs. str_nat n = c # cs \<and> c \<noteq> CHR ''-''"
proof (induction n rule: str_nat.induct)
  case (1 n)
  show ?case
  proof (cases "n < 10")
    case True
    then show ?thesis
      using nth_digit_not_minus [of n] by (simp add: str_nat.simps [of n])
  next
    case False
    with 1 obtain c cs where "str_nat (n div 10) = c # cs" "c \<noteq> CHR ''-''" by blast
    with False show ?thesis by (simp add: str_nat.simps [of n])
  qed
qed

lemma read_int_str_int: "read_int (str_int t) = Some t"
proof (cases "t < 0")
  case True
  then show ?thesis by (simp add: read_int_def str_int_def read_nat_str_nat)
next
  case False
  obtain c cs where s: "str_nat (nat t) = c # cs" "c \<noteq> CHR ''-''"
    using str_nat_head by blast
  have "read_nat (c # cs) = nat t" using read_nat_str_nat [of "nat t"] s by simp
  with False s show ?thesis by (simp add: read_int_def str_int_def)
qed

lemma str_int_nonempty: "str_int t \<noteq> []"
  using str_nat_head [of "nat t"] by (auto simp: str_int_def)

subsection \<open>The file after a save\<close>

lemma deserialize_serialize:
  assumes "\<forall>t. fromisoformat (isoformat t) = Some t" and "\<forall>t. isoformat t \<noteq> []"
  shows "deserialize fromisoformat (serialize isoformat (to_dict r)) = Inr (to_dict r)"
  using assms
  by (cases "completed_at r")
     (simp_all add: deserialize_def serialize_def to_dict_def get_def setitem_def Let_def)

lemma deserialize_all_serialize:
  assumes "\<forall>t. fromisoformat (isoformat t) = Some t" and "\<forall>t. isoformat t \<noteq> []"
  shows "deserialize_all fromisoformat (map (serialize isoformat \<circ> to_dict) X) = Inr (map to_dict X)"
  by (induction X) (simp_all add: deserialize_serialize [OF assms])



subsection \<open>What a run can do to the collection\<close>

lemma reminders_set_status [simp]:
  "reminders (set_status i s st) = (reminders st)[i := (reminders st ! i)\<lparr>status := s\<rparr>]"
  by (simp add: set_status_def)

lemma reminders_dismiss:
  "reminders (dismiss_reminder isoformat i st) =
     (reminders st)[i := (reminders st ! i)\<lparr>status := Dismissed\<rparr>]"
  by (simp add: dismiss_reminder_def)

lemma reminders_complete:
  "reminders (complete_reminder isoformat now i st) =
     (reminders st)[i := (reminders st ! i)\<lparr>status := Completed, completed_at := Some now\<rparr>]"
  by (cases "i < length (reminders st)")
     (simp_all add: complete_reminder_def set_completed_at_def list_update_beyond)

lemma reminders_uncomplete:
  "reminders (uncomplete_reminder isoformat i st) =
     (reminders st)[i := (reminders st ! i)\<lparr>status := Pending, completed_at := None\<rparr>]"
  by (cases "i < length (reminders st)")
     (simp_all add: uncomplete_reminder_def set_completed_at_def list_update_beyond)

lemma reminders_mark_due:
  "reminders (fst (mark_due isoformat now i acc)) =
     (if status (reminders (fst acc) ! i) = Pending \<and> due_time (reminders (fst acc) ! i) \<le> now
      then (reminders (fst acc))[i := (reminders (fst acc) ! i)\<lparr>status := Due\<rparr>]
      else reminders (fst acc))"
  by (simp add: mark_due_def Let_def)

lemma active_loop_rule:
  assumes "Q (reminders (fst acc))"
    and "\<And>rs i. i \<in> set is \<Longrightarrow> Q rs \<Longrightarrow> status (rs ! i) = Pending
           \<Longrightarrow> Q (rs[i := (rs ! i)\<lparr>status := Due\<rparr>])"
    and "\<And>rs i. i \<in> set is \<Longrightarrow> Q rs
           \<Longrightarrow> Q (rs[i := (rs ! i)\<lparr>status := Completed, completed_at := Some now2\<rparr>])"
    and "\<And>rs i. i \<in> set is \<Longrightarrow> Q rs \<Longrightarrow> Q (rs[i := (rs ! i)\<lparr>status := Dismissed\<rparr>])"
  shows "Q (reminders (fst (fst (active_loop isoformat ev now now2 is acc))))"
  using assms
proof (induction "is" arbitrary: acc)
  case Nil
  then show ?case by simp
next
  case (Cons i "is")
  let ?acc1 = "mark_due isoformat now i acc"
  have q1: "Q (reminders (fst ?acc1))"
    using Cons.prems(1) Cons.prems(2) [of i "reminders (fst acc)"]
    by (simp add: reminders_mark_due)
  have rest: "Q (reminders (fst (fst (active_loop isoformat ev now now2 is ?acc1))))"
    by (rule Cons.IH [OF q1]) (simp_all add: Cons.prems(2,3,4))
  show ?case
    using q1 rest Cons.prems(3) [of i "reminders (fst ?acc1)"]
      Cons.prems(4) [of i "reminders (fst ?acc1)"]
    by (simp add: Let_def reminders_complete reminders_dismiss)
qed

lemma completed_loop_rule:
  assumes "Q (reminders st)"
    and "\<And>rs i. i \<in> set is \<Longrightarrow> Q rs
           \<Longrightarrow> Q (rs[i := (rs ! i)\<lparr>status := Pending, completed_at := None\<rparr>])"
    and "\<And>rs i. i \<in> set is \<Longrightarrow> Q rs \<Longrightarrow> Q (rs[i := (rs ! i)\<lparr>status := Dismissed\<rparr>])"
  shows "Q (reminders (fst (completed_loop isoformat ev is st)))"
  using assms
proof (induction "is")
  case Nil
  then show ?case by simp
next
  case (Cons i "is")
  have rest: "Q (reminders (fst (completed_loop isoformat ev is st)))"
    by (rule Cons.IH) (simp_all add: Cons.prems)
  show ?case
    using rest Cons.prems(1) Cons.prems(2) [of i "reminders st"] Cons.prems(3) [of i "reminders st"]
    by (simp add: Let_def reminders_uncomplete reminders_dismiss)
qed

lemma render_rule:
  assumes q: "Q (reminders st)"
    and due: "\<And>rs i. i < length (reminders st) \<Longrightarrow> status (reminders st ! i) \<noteq> Dismissed
           \<Longrightarrow> Q rs \<Longrightarrow> status (rs ! i) = Pending \<Longrightarrow> Q (rs[i := (rs ! i)\<lparr>status := Due\<rparr>])"
    and comp: "\<And>rs i. i < length (reminders st) \<Longrightarrow> status (reminders st ! i) \<noteq> Dismissed
           \<Longrightarrow> Q rs \<Longrightarrow> Q (rs[i := (rs ! i)\<lparr>status := Completed, completed_at := Some now2\<rparr>])"
    and unc: "\<And>rs i. i < length (reminders st) \<Longrightarrow> status (reminders st ! i) \<noteq> Dismissed
           \<Longrightarrow> Q rs \<Longrightarrow> Q (rs[i := (rs ! i)\<lparr>status := Pending, completed_at := None\<rparr>])"
    and dis: "\<And>rs i. i < length (reminders st) \<Longrightarrow> status (reminders st ! i) \<noteq> Dismissed
           \<Longrightarrow> Q rs \<Longrightarrow> Q (rs[i := (rs ! i)\<lparr>status := Dismissed\<rparr>])"
  shows "Q (reminders (fst (render isoformat ev now now2 st)))"
proof -
  let ?act = "sorted_active_reminders (reminders st)"
  let ?com = "sorted_completed_reminders (reminders st)"
  let ?res = "active_loop isoformat ev now now2 ?act (st, [])"
  have a: "Q (reminders (fst (fst ?res)))"
    by (rule active_loop_rule [where Q = Q]) (simp_all add: q due comp dis set_sorted_active)
  have c: "Q (reminders (fst (completed_loop isoformat ev ?com (fst (fst ?res)))))"
    by (rule completed_loop_rule [where Q = Q])
       (simp_all add: a unc dis set_sorted_completed)
  show ?thesis
  proof (cases "reminders st = []")
    case True
    then show ?thesis using q by (simp add: render_def)
  next
    case False
    then show ?thesis using a c by (simp add: render_def Let_def split: option.split)
  qed
qed

lemma reminders_add:
  "reminders (add_reminder isoformat uuid now1 now2 t v u st) =
     reminders st @ [\<lparr>id_r = uuid, task = t, due_time = fst (calculate_due_time now1 v u st),
                      created_at = now2, status = Pending, completed_at = None\<rparr>]"
  by (simp add: add_reminder_def calculate_due_time_def Let_def)

lemma fst_script_run:
  "fst (script_run isoformat ev uuid now1 now2 st) =
     (case ev of
        FormSubmitted t v u \<Rightarrow>
          if t \<noteq> [] then add_reminder isoformat uuid now1 now2 t v u st
          else fst (render isoformat ev now1 now2 st)
      | _ \<Rightarrow> fst (render isoformat ev now1 now2 st))"
  by (simp add: script_run_def split: event.split)

lemma render_keeps_untouched:
  assumes "j < length (reminders st)" and "status (reminders st ! j) = Dismissed"
  shows "length (reminders (fst (render isoformat ev now now2 st))) = length (reminders st)
       \<and> reminders (fst (render isoformat ev now now2 st)) ! j = reminders st ! j"
  by (rule render_rule
        [where Q = "\<lambda>rs. length rs = length (reminders st) \<and> rs ! j = reminders st ! j"])
     (use assms in \<open>auto simp: nth_list_update\<close>)

lemma run_keeps_dismissed:
  assumes "j < length (reminders st)" and "status (reminders st ! j) = Dismissed"
  shows "j < length (reminders (fst (script_run isoformat ev uuid now1 now2 st)))
       \<and> reminders (fst (script_run isoformat ev uuid now1 now2 st)) ! j = reminders st ! j"
  using assms render_keeps_untouched [OF assms, of isoformat ev now1 now2]
  by (auto simp: fst_script_run reminders_add nth_append split: event.split)





lemma status_agrees_update:
  "list_all status_agrees rs \<Longrightarrow> status_agrees r \<Longrightarrow> list_all status_agrees (rs[i := r])"
  unfolding list_all_iff using set_update_subset_insert [of rs i r] by blast

lemma status_agrees_due:
  assumes "list_all status_agrees rs" and "status (rs ! i) = Pending"
  shows "list_all status_agrees (rs[i := (rs ! i)\<lparr>status := Due\<rparr>])"
proof (cases "i < length rs")
  case True
  then have "status_agrees (rs ! i)" using assms(1) by (simp add: list_all_length)
  then have "status_agrees ((rs ! i)\<lparr>status := Due\<rparr>)"
    using assms(2) by (simp add: status_agrees_def)
  with assms(1) show ?thesis by (rule status_agrees_update)
next
  case False
  then show ?thesis using assms(1) by (simp add: list_update_beyond)
qed

lemma status_agrees_completed:
  "status_agrees (r\<lparr>status := Completed, completed_at := Some t\<rparr>)"
  by (simp add: status_agrees_def)

lemma status_agrees_pending: "status_agrees (r\<lparr>status := Pending, completed_at := None\<rparr>)"
  by (simp add: status_agrees_def)

lemma status_agrees_dismissed: "status_agrees (r\<lparr>status := Dismissed\<rparr>)"
  by (simp add: status_agrees_def)

lemma render_status_agrees:
  assumes "list_all status_agrees (reminders st)"
  shows "list_all status_agrees (reminders (fst (render isoformat ev now now2 st)))"
proof (rule render_rule [where Q = "list_all status_agrees"])
  show "list_all status_agrees (reminders st)" by fact
next
  fix rs :: "reminder list" and i
  assume "list_all status_agrees rs" and "status (rs ! i) = Pending"
  then show "list_all status_agrees (rs[i := (rs ! i)\<lparr>status := Due\<rparr>])"
    by (rule status_agrees_due)
next
  fix rs :: "reminder list" and i
  assume "list_all status_agrees rs"
  then show "list_all status_agrees
               (rs[i := (rs ! i)\<lparr>status := Completed, completed_at := Some now2\<rparr>])"
    using status_agrees_completed by (rule status_agrees_update)
next
  fix rs :: "reminder list" and i
  assume "list_all status_agrees rs"
  then show "list_all status_agrees
               (rs[i := (rs ! i)\<lparr>status := Pending, completed_at := None\<rparr>])"
    using status_agrees_pending by (rule status_agrees_update)
next
  fix rs :: "reminder list" and i
  assume "list_all status_agrees rs"
  then show "list_all status_agrees (rs[i := (rs ! i)\<lparr>status := Dismissed\<rparr>])"
    using status_agrees_dismissed by (rule status_agrees_update)
qed

lemma add_status_agrees:
  assumes "list_all status_agrees (reminders st)"
  shows "list_all status_agrees (reminders (add_reminder isoformat uuid now1 now2 t v u st))"
proof -
  have "status_agrees \<lparr>id_r = uuid, task = t, due_time = d, created_at = now2,
                        status = Pending, completed_at = None\<rparr>" for d
    by (simp add: status_agrees_def)
  with assms show ?thesis by (simp add: reminders_add)
qed

lemma run_status_agrees:
  assumes "list_all status_agrees (reminders st)"
  shows "list_all status_agrees (reminders (fst (script_run isoformat ev uuid now1 now2 st)))"
  using add_status_agrees [OF assms] render_status_agrees [OF assms]
  by (simp add: fst_script_run split: event.split)

section \<open>The claims\<close>

text \<open>
  C1. On a positive delta \<open>format_timedelta_dhms\<close> shows the seconds only when days,
  hours and minutes are all zero: a delta of 3661 seconds gives \<open>1h 1m\<close>, a delta of
  90 seconds gives \<open>1m\<close>, and the delta of the docstring's own example,
  \<open>2d 3h 5m 10s\<close>, gives \<open>2d 3h 5m\<close>. Below a minute the seconds are shown, and the
  overdue branch shows them whenever they are not zero.
\<close>

theorem format_timedelta_dhms_drops_seconds:
  "format_timedelta_dhms 3661000000 = ''1h 1m''
   \<and> format_timedelta_dhms 90000000 = ''1m''
   \<and> format_timedelta_dhms 183910000000 = ''2d 3h 5m''
   \<and> format_timedelta_dhms 30000000 = ''30s''
   \<and> format_timedelta_dhms (- 3661000000) = ''Overdue by 1h 1m 1s!''"
  by code_simp




text \<open>
  C3, as the claim states it, fails: in a collection where \<open>completed_at\<close> is present
  exactly for the completed reminders, dismissing the completed reminder leaves it
  dismissed with its \<open>completed_at\<close>.
\<close>

theorem dismissed_keeps_completed_at:
  "list_all completed_at_iff (reminders example_state)
   \<and> status (reminders (fst (script_run str_int (DismissCompletedClicked ''b'') ''u'' 8000000
         8000000 example_state)) ! 1) = Dismissed
   \<and> completed_at (reminders (fst (script_run str_int (DismissCompletedClicked ''b'') ''u''
         8000000 8000000 example_state)) ! 1) = Some 7000000
   \<and> \<not> list_all completed_at_iff (reminders (fst (script_run str_int
         (DismissCompletedClicked ''b'') ''u'' 8000000 8000000 example_state)))"
  by (simp add: script_run_def render_def sorted_active_reminders_def
        sorted_completed_reminders_def completed_key_def example_state_def Let_def
        mark_due_def dismiss_reminder_def uncomplete_reminder_def complete_reminder_def
        set_status_def completed_at_iff_def)

text \<open>
  C3, amended. If every pending or due reminder has no \<open>completed_at\<close> and every
  completed reminder has one, then so it is after any sequence of runs of the script
  (add, complete, uncomplete, dismiss, refresh): \<open>completed_at\<close> is present exactly when
  the status is completed for every reminder that is not dismissed. A dismissed reminder
  keeps the \<open>completed_at\<close> it had.
\<close>

theorem status_agrees_kept:
  assumes "list_all status_agrees (reminders st)"
  shows "list_all status_agrees (reminders (session isoformat xs st))
       \<and> list_all (\<lambda>r. status r = Dismissed \<or> completed_at_iff r)
           (reminders (session isoformat xs st))"
proof -
  have all: "list_all status_agrees (reminders (session isoformat xs st))"
    using assms
  proof (induction xs arbitrary: st)
    case Nil
    then show ?case by simp
  next
    case (Cons x xs)
    show ?case using Cons.IH [OF run_status_agrees [OF Cons.prems]] by simp
  qed
  have "status r = Dismissed \<or> completed_at_iff r" if "status_agrees r" for r
    using that by (cases "status r") (simp_all add: status_agrees_def completed_at_iff_def)
  with all show ?thesis unfolding list_all_iff by blast
qed

theorem status_agrees_kept_witness:
  "list_all status_agrees (reminders example_state)
   \<and> list_all status_agrees (reminders (session str_int example_runs example_state))
   \<and> list_all (\<lambda>r. status r = Dismissed \<or> completed_at_iff r)
         (reminders (session str_int example_runs example_state))"
proof -
  have h: "list_all status_agrees (reminders example_state)"
    by (simp add: example_state_def status_agrees_def)
  show ?thesis
    using h status_agrees_kept [OF h, of str_int example_runs] by simp
qed

text \<open>
  C4. Evaluating twice at the same time: the second evaluation shows the same active and
  completed lists, leaves the whole state (collection, file, messages) as the first left
  it, and notifies nothing.
\<close>

theorem evaluate_twice:
  "(let (st1, active1, completed1, due1) = evaluate isoformat now st;
        (st2, active2, completed2, due2) = evaluate isoformat now st1
    in active2 = active1 \<and> completed2 = completed1 \<and> st2 = st1 \<and> due2 = [])"
  by (simp add: evaluate_def Let_def render_NoEvent timed_pass_twice sorted_lists_timed_pass)

text \<open>
  C5. Lines 167 to 171 run in every run of the script, also in one a widget started, and
  such a run ends in \<open>st.rerun()\<close> before the toasts of line 261. With two pending
  reminders whose time has come, a run started by the dismiss button of the second turns
  the first due and ends without showing its notification; no later evaluation notifies
  it, since it is no longer pending. A run no widget started notifies both.
\<close>

theorem due_notification_lost:
  "(let run = script_run str_int (DismissClicked ''y'') ''u'' 5000000 5000000 overdue_pair;
        st1 = fst run
    in status (reminders overdue_pair ! 0) = Pending
     \<and> due_time (reminders overdue_pair ! 0) \<le> 5000000
     \<and> snd run = Rerun
     \<and> map status (reminders st1) = [Due, Dismissed]
     \<and> evaluations str_int [5000000, 6000000, 7000000] st1 = [[], [], []]
     \<and> snd (snd (snd (evaluate str_int 5000000 st1))) = []
     \<and> snd (snd (snd (evaluate str_int 5000000 overdue_pair))) = [''Take pills'', ''Feed cat''])"
  by (simp add: overdue_pair_def script_run_def render_def evaluate_def
        sorted_active_reminders_def sorted_completed_reminders_def completed_key_def
        became_due_positions_def due_now_def Let_def mark_due_def dismiss_reminder_def
        set_status_def)

text \<open>
  C6. When \<open>fromisoformat\<close> reads back what \<open>isoformat\<close> writes, which is never the
  empty string: the serialized form of the dict of every reminder, with \<open>completed_at\<close>
  absent or present, is JSON serialisable, and deserializing it gives the dict as it was,
  key for key. When the disk takes the write, saving a collection raises nothing and
  leaves the JSON array of the serialized dicts in the file, and loading that file gives
  the collection, with no message.
\<close>

theorem save_load_roundtrip:
  assumes "\<forall>t. fromisoformat (isoformat t) = Some t" and "\<forall>t. isoformat t \<noteq> []"
    and "write_succeeds st"
  shows "json_serializable (serialize isoformat (to_dict r))
       \<and> deserialize fromisoformat (serialize isoformat (to_dict r)) = Inr (to_dict r)
       \<and> save_reminders_to_file isoformat (map to_dict X) st =
           (st\<lparr>reminders_file := JsonFile (map (serialize isoformat \<circ> to_dict) X),
               disk := tl (disk st)\<rparr>, None)
       \<and> load_reminders_from_file fromisoformat e
           (reminders_file (fst (save_reminders_to_file isoformat (map to_dict X) st)))
         = (Inr (map to_dict X), [])"
proof -
  have ser: "list_all json_serializable (map (serialize isoformat \<circ> to_dict) X)"
    by (rule serialized_collection)
  have saved: "save_reminders_to_file isoformat (map to_dict X) st =
           (st\<lparr>reminders_file := JsonFile (map (serialize isoformat \<circ> to_dict) X),
               disk := tl (disk st)\<rparr>, None)"
    using assms(3) ser
    by (auto simp: save_reminders_to_file_def write_file_def json_dump_def write_succeeds_def
          split: list.splits io_result.splits)
  show ?thesis
    using assms(1,2)
    by (simp add: saved json_ok deserialize_serialize load_reminders_from_file_def
          deserialize_all_serialize)
qed

theorem save_load_roundtrip_witness:
  "(\<forall>t. read_int (str_int t) = Some t) \<and> (\<forall>t. str_int t \<noteq> []) \<and> write_succeeds empty_state
   \<and> json_serializable (serialize str_int (to_dict (reminders example_state ! 1)))
   \<and> deserialize read_int (serialize str_int (to_dict (reminders example_state ! 1)))
       = Inr (to_dict (reminders example_state ! 1))
   \<and> save_reminders_to_file str_int (map to_dict (reminders example_state)) empty_state =
       (empty_state
          \<lparr>reminders_file :=
             JsonFile (map (serialize str_int \<circ> to_dict) (reminders example_state)),
           disk := tl (disk empty_state)\<rparr>, None)
   \<and> load_reminders_from_file read_int ''''
        (reminders_file
           (fst (save_reminders_to_file str_int (map to_dict (reminders example_state))
              empty_state)))
       = (Inr (map to_dict (reminders example_state)), [])"
proof -
  have h: "\<forall>t. read_int (str_int t) = Some t" "\<forall>t. str_int t \<noteq> []"
    "write_succeeds empty_state"
    by (simp_all add: read_int_str_int str_int_nonempty write_succeeds_def empty_state_def)
  show ?thesis
    using h save_load_roundtrip
      [OF h, of "reminders example_state ! 1" "reminders example_state" "''''"]
    by blast
qed

text \<open>
  C7. The active list holds exactly the reminders that are pending or due, in ascending
  order of \<open>due_time\<close>; the completed list holds exactly the completed reminders, in
  descending order of \<open>completed_at\<close>, or of \<open>created_at\<close> where \<open>completed_at\<close> is
  absent; no dismissed reminder is in either list.
\<close>

theorem classification_sorted:
  "(let active = map (\<lambda>i. rs ! i) (sorted_active_reminders rs);
        completed = map (\<lambda>i. rs ! i) (sorted_completed_reminders rs)
    in mset active = mset (filter (\<lambda>r. status r = Pending \<or> status r = Due) rs)
     \<and> sorted (map due_time active)
     \<and> mset completed = mset (filter (\<lambda>r. status r = Completed) rs)
     \<and> sorted (rev (map (\<lambda>r. case completed_at r of None \<Rightarrow> created_at r | Some t \<Rightarrow> t) completed))
     \<and> filter (\<lambda>r. status r = Dismissed) (active @ completed) = [])"
proof -
  have k: "(\<lambda>r. case completed_at r of None \<Rightarrow> created_at r | Some t \<Rightarrow> t) = completed_key"
    by (simp add: completed_key_def fun_eq_iff)
  show ?thesis
    unfolding Let_def active_view completed_view k
    by (auto simp: not_dc rev_map[symmetric] filter_empty_conv)
qed




text \<open>
  C9. A dismissed reminder stays dismissed through any sequence of runs of the script,
  whatever the events (form, complete, uncomplete, dismiss, refresh) and the clock: the
  script renders no widget for it and the loops never reach it.
\<close>

theorem dismissed_is_terminal:
  assumes "j < length (reminders st)" and "status (reminders st ! j) = Dismissed"
  shows "j < length (reminders (session isoformat xs st))
       \<and> status (reminders (session isoformat xs st) ! j) = Dismissed"
  using assms
proof (induction xs arbitrary: st)
  case Nil
  then show ?case by simp
next
  case (Cons x xs)
  let ?st1 = "fst (script_run isoformat (ev_of x) (uuid_of x) (now1_of x) (now2_of x) st)"
  have "j < length (reminders ?st1)" "status (reminders ?st1 ! j) = Dismissed"
    using run_keeps_dismissed [OF Cons.prems, of isoformat "ev_of x" "uuid_of x" "now1_of x" "now2_of x"]
      Cons.prems by simp_all
  then show ?case using Cons.IH by simp
qed

theorem dismissed_is_terminal_witness:
  "2 < length (reminders example_state)
   \<and> status (reminders example_state ! 2) = Dismissed
   \<and> 2 < length (reminders (session str_int example_runs example_state))
   \<and> status (reminders (session str_int example_runs example_state) ! 2) = Dismissed"
proof -
  have h: "2 < length (reminders example_state)"
    "status (reminders example_state ! 2) = Dismissed"
    by (simp_all add: example_state_def)
  show ?thesis
    using h dismissed_is_terminal [OF h, of str_int example_runs] by simp
qed

text \<open>
  C10. The dismiss handler sets the status of its reminder to dismissed and leaves its
  id, task, \<open>due_time\<close>, \<open>created_at\<close> and \<open>completed_at\<close> as they were (a completed
  reminder keeps its \<open>completed_at\<close>); the collection keeps its length and every other
  reminder is unchanged.
\<close>

theorem dismiss_changes_status_only:
  assumes "i < length (reminders st)"
  shows "(let r = reminders st ! i;
              st' = dismiss_reminder isoformat i st;
              r' = reminders st' ! i
          in status r' = Dismissed
           \<and> id_r r' = id_r r \<and> task r' = task r \<and> due_time r' = due_time r
           \<and> created_at r' = created_at r \<and> completed_at r' = completed_at r
           \<and> length (reminders st') = length (reminders st)
           \<and> (\<forall>j. j \<noteq> i \<longrightarrow> reminders st' ! j = reminders st ! j))"
  using assms by (simp add: Let_def reminders_dismiss)

theorem dismiss_changes_status_only_witness:
  "1 < length (reminders example_state)
   \<and> status (reminders example_state ! 1) = Completed
   \<and> status (reminders (dismiss_reminder str_int 1 example_state) ! 1) = Dismissed
   \<and> completed_at (reminders (dismiss_reminder str_int 1 example_state) ! 1) = Some 7000000
   \<and> reminders (dismiss_reminder str_int 1 example_state) ! 0 = reminders example_state ! 0
   \<and> reminders (dismiss_reminder str_int 1 example_state) ! 2 = reminders example_state ! 2"
proof -
  have h: "1 < length (reminders example_state)"
    by (simp add: example_state_def)
  have c: "status (reminders example_state ! 1) = Completed"
    "completed_at (reminders example_state ! 1) = Some 7000000"
    by (simp_all add: example_state_def)
  show ?thesis
    using h c dismiss_changes_status_only [OF h, of str_int]
    by (simp add: Let_def)
qed

end
